theory Spec2Isabelle
  imports Main
begin

section \<open>Python values used by backend/server.py\<close>

subsection \<open>Strings\<close>

text \<open>
  Strings are ASCII strings. \<open>lower\<close> is \<^verbatim>\<open>str.lower\<close> on them: the letters
  \<^verbatim>\<open>A\<close> to \<^verbatim>\<open>Z\<close> (codes 65 to 90) move to \<^verbatim>\<open>a\<close> to \<^verbatim>\<open>z\<close>, every other
  character stays.
\<close>

definition lower_char :: "char \<Rightarrow> char" where
  "lower_char c =
     (let n = (of_char c :: nat) in if 65 \<le> n \<and> n \<le> 90 then char_of (n + 32) else c)"

definition lower :: "string \<Rightarrow> string" where
  "lower s = map lower_char s"

text \<open>\<^verbatim>\<open>s.startswith(p)\<close> and the operator \<^verbatim>\<open>p in s\<close> on strings, as a left-to-right search.\<close>

fun startswith :: "string \<Rightarrow> string \<Rightarrow> bool" where
  "startswith s [] = True"
| "startswith [] (c # p) = False"
| "startswith (x # s) (c # p) = (x = c \<and> startswith s p)"

fun str_in :: "string \<Rightarrow> string \<Rightarrow> bool" where
  "str_in p [] = (p = [])"
| "str_in p (x # s) = (startswith (x # s) p \<or> str_in p s)"

text \<open>\<^verbatim>\<open>s.split(c)\<close> for a one-character separator; \<open>acc\<close> holds the current piece reversed.\<close>

fun split_acc :: "char \<Rightarrow> string \<Rightarrow> string \<Rightarrow> string list" where
  "split_acc c acc [] = [rev acc]"
| "split_acc c acc (x # s) =
     (if x = c then rev acc # split_acc c [] s else split_acc c (x # acc) s)"

definition split :: "string \<Rightarrow> char \<Rightarrow> string list" where
  "split s c = split_acc c [] s"

text \<open>\<^verbatim>\<open>str(n)\<close> for a non-negative integer.\<close>

definition digit_char :: "nat \<Rightarrow> char" where
  "digit_char d = char_of (48 + d)"

fun str_nat :: "nat \<Rightarrow> string" where
  "str_nat n = (if n < 10 then [digit_char n] else str_nat (n div 10) @ [digit_char (n mod 10)])"

declare str_nat.simps [simp del]

subsection \<open>Exceptions\<close>

datatype exn =
    RequestException string
  | JSONDecodeError
  | ValueError string
  | OperationFailure string
  | IndexError

subsection \<open>Dates\<close>

text \<open>
  A \<^verbatim>\<open>datetime\<close>, at the millisecond precision the store keeps.
\<close>

record datetime =
  dt_year :: nat
  dt_month :: nat
  dt_day :: nat
  dt_ms :: nat

definition digit_val :: "char \<Rightarrow> nat option" where
  "digit_val c =
     (let n = (of_char c :: nat) in if 48 \<le> n \<and> n \<le> 57 then Some (n - 48) else None)"

fun digits_val :: "nat \<Rightarrow> string \<Rightarrow> nat option" where
  "digits_val acc [] = Some acc"
| "digits_val acc (c # cs) =
     (case digit_val c of None \<Rightarrow> None | Some d \<Rightarrow> digits_val (10 * acc + d) cs)"

definition is_leap :: "nat \<Rightarrow> bool" where
  "is_leap y = (if y mod 100 = 0 then y mod 400 = 0 else y mod 4 = 0)"

definition days_in_month :: "nat \<Rightarrow> nat \<Rightarrow> nat" where
  "days_in_month y m =
     (if m = 2 then (if is_leap y then 29 else 28)
      else if m = 4 \<or> m = 6 \<or> m = 9 \<or> m = 11 then 30 else 31)"

text \<open>
  \<^verbatim>\<open>datetime.fromisoformat\<close>. On a string of the shape \<^verbatim>\<open>dddd-dd-dd\<close> (ten characters,
  digits around two hyphens) every Python version reads a calendar date at midnight and
  raises \<^verbatim>\<open>ValueError\<close> when year, month or day is out of range. Which other strings
  are accepted depends on the Python version; for them the result is taken from the
  parameter \<open>ext\<close> (\<open>None\<close> is \<^verbatim>\<open>ValueError\<close>).
\<close>

definition fromisoformat :: "(string \<Rightarrow> datetime option) \<Rightarrow> string \<Rightarrow> exn + datetime" where
  "fromisoformat ext s =
     (case s of
        [y1, y2, y3, y4, h1, m1, m2, h2, d1, d2] \<Rightarrow>
          (case (digits_val 0 [y1, y2, y3, y4], digits_val 0 [m1, m2], digits_val 0 [d1, d2]) of
             (Some y, Some m, Some d) \<Rightarrow>
               if h1 = CHR ''-'' \<and> h2 = CHR ''-'' then
                 (if 1 \<le> y \<and> 1 \<le> m \<and> m \<le> 12 \<and> 1 \<le> d \<and> d \<le> days_in_month y m
                  then Inr \<lparr>dt_year = y, dt_month = m, dt_day = d, dt_ms = 0\<rparr>
                  else Inl (ValueError s))
               else (case ext s of None \<Rightarrow> Inl (ValueError s) | Some t \<Rightarrow> Inr t)
           | _ \<Rightarrow> (case ext s of None \<Rightarrow> Inl (ValueError s) | Some t \<Rightarrow> Inr t))
      | _ \<Rightarrow> (case ext s of None \<Rightarrow> Inl (ValueError s) | Some t \<Rightarrow> Inr t))"

section \<open>The three collections and the outside world\<close>

text \<open>
  One entry of the provider's catalogue, as \<^verbatim>\<open>response.json()\<close> delivers it: a JSON
  object whose seven fields read by the code have the types of the provider's breach
  model; each field may be absent (\<open>None\<close>), which is what \<^verbatim>\<open>breach.get(key, default)\<close>
  tests.
\<close>

record raw_breach =
  r_Name :: "string option"
  r_Domain :: "string option"
  r_PwnCount :: "int option"
  r_BreachDate :: "string option"
  r_DataClasses :: "string list option"
  r_Description :: "string option"
  r_IsVerified :: "bool option"

text \<open>\<^verbatim>\<open>d.get(key, default)\<close> on a field that may be absent.\<close>

definition get :: "'a option \<Rightarrow> 'a \<Rightarrow> 'a" where
  "get v dflt = (case v of None \<Rightarrow> dflt | Some x \<Rightarrow> x)"

text \<open>
  The answer to one \<^verbatim>\<open>requests.get\<close>: the call raises (timeout, connection error), or
  returns a status code and a body. The body is \<open>Some xs\<close> when \<^verbatim>\<open>response.json()\<close> and
  the list comprehension over it run through, \<open>xs\<close> being the objects iterated; it is
  \<open>None\<close> when one of them raises (the comprehension writes nothing, so where it raises does
  not matter).
\<close>

datatype response =
    Transport_failure string
  | Http nat "raw_breach list option"

text \<open>The dictionary \<^verbatim>\<open>breach_data\<close> built at lines 136-147.\<close>

record breach_data =
  b_id :: string
  breach_name :: string
  b_domain :: string
  emails_compromised :: int
  breach_date :: datetime
  data_classes :: "string list"
  description :: string
  verified :: bool
  source :: string
  b_created_at :: datetime

text \<open>A stored document: the store's own \<^verbatim>\<open>_id\<close> and the fields written by the code.\<close>

record breach_doc =
  b_oid :: nat
  b_fields :: breach_data

record domain_doc =
  d_oid :: nat
  d_id :: string
  d_domain :: string
  email_patterns :: "string list"
  d_created_at :: datetime
  d_status :: string

record alert_doc =
  a_oid :: nat
  a_id :: string
  a_domain :: string
  a_breach_name :: string
  severity :: string
  a_message :: string
  a_created_at :: datetime
  a_status :: string
  dismissed_at :: "datetime option"

text \<open>
  What the code reads from outside, each as a sequence indexed by the number of reads so
  far: the provider's answers, \<^verbatim>\<open>uuid.uuid4()\<close>, \<^verbatim>\<open>datetime.now()\<close>; the part of
  \<^verbatim>\<open>datetime.fromisoformat\<close> left open above; and the store's regular-expression
  engine with option \<^verbatim>\<open>i\<close> (\<open>None\<close>: the pattern does not compile and the query fails).
\<close>

record env =
  provider :: "nat \<Rightarrow> response"
  uuid4 :: "nat \<Rightarrow> string"
  now :: "nat \<Rightarrow> datetime"
  fromisoformat_ext :: "string \<Rightarrow> datetime option"
  regex_i :: "string \<Rightarrow> (string \<Rightarrow> bool) option"

text \<open>
  The state: the collections in insertion order (the order \<^verbatim>\<open>find()\<close> yields) and the
  counters of reads. The store is reachable: its operations return, so the only exceptions
  are those of the provider call, of the decoding of its answer, of the reading of a date
  and of a rejected regular expression.
\<close>

record world =
  breaches_collection :: "breach_doc list"
  domains_collection :: "domain_doc list"
  alerts_collection :: "alert_doc list"
  requests_made :: nat
  uuids_drawn :: nat
  clock_reads :: nat
  oids_issued :: nat

section \<open>Store operations\<close>

text \<open>
  \<^verbatim>\<open>update_one(filter, {"$set": ...})\<close>: the first document that satisfies the filter,
  in collection order, is updated in place. Returns the collection, \<^verbatim>\<open>matched_count\<close>
  and \<^verbatim>\<open>modified_count\<close> (1 only when the document changed).
\<close>

fun update_one :: "('a \<Rightarrow> bool) \<Rightarrow> ('a \<Rightarrow> 'a) \<Rightarrow> 'a list \<Rightarrow> 'a list \<times> nat \<times> nat" where
  "update_one q f [] = ([], 0, 0)"
| "update_one q f (d # ds) =
     (if q d then (f d # ds, 1, if f d = d then 0 else 1)
      else (case update_one q f ds of (ds', m, n) \<Rightarrow> (d # ds', m, n)))"

text \<open>
  Lines 150-154: \<^verbatim>\<open>update_one({"breach_name": name}, {"$set": breach_data}, upsert=True)\<close>.
  With no match a new document is inserted under a fresh \<^verbatim>\<open>_id\<close>.
\<close>

definition upsert :: "breach_data \<Rightarrow> world \<Rightarrow> world" where
  "upsert data w =
     (case update_one (\<lambda>d. breach_name (b_fields d) = breach_name data)
             (\<lambda>d. d\<lparr>b_fields := data\<rparr>) (breaches_collection w) of
        (ds, matched, modified) \<Rightarrow>
          if matched = 0
          then w\<lparr>breaches_collection :=
                   breaches_collection w @ [\<lparr>b_oid = oids_issued w, b_fields = data\<rparr>],
                 oids_issued := oids_issued w + 1\<rparr>
          else w\<lparr>breaches_collection := ds\<rparr>)"

section \<open>get_domain_breaches (lines 117-161)\<close>

record scan_result =
  breaches :: "raw_breach list"
  count :: nat
  message :: "string option"
  error :: "exn option"

text \<open>Lines 135-147: one fresh uuid, the date parsed (may raise), then the clock read.\<close>

definition make_breach_data :: "env \<Rightarrow> raw_breach \<Rightarrow> world \<Rightarrow> (exn + breach_data) \<times> world" where
  "make_breach_data e breach w =
     (let breach_id = uuid4 e (uuids_drawn w);
          w1 = w\<lparr>uuids_drawn := uuids_drawn w + 1\<rparr>
      in case fromisoformat (fromisoformat_ext e) (get (r_BreachDate breach) ''2024-01-01'') of
           Inl x \<Rightarrow> (Inl x, w1)
         | Inr date \<Rightarrow>
             (Inr \<lparr>b_id = breach_id,
                   breach_name = get (r_Name breach) '''',
                   b_domain = get (r_Domain breach) '''',
                   emails_compromised = get (r_PwnCount breach) 0,
                   breach_date = date,
                   data_classes = get (r_DataClasses breach) [],
                   description = get (r_Description breach) '''',
                   verified = get (r_IsVerified breach) False,
                   source = ''HaveIBeenPwned'',
                   b_created_at = now e (clock_reads w1)\<rparr>,
              w1\<lparr>clock_reads := clock_reads w1 + 1\<rparr>))"

text \<open>The loop of lines 134-154; an exception leaves the loop with the writes made so far.\<close>

fun store_breaches :: "env \<Rightarrow> raw_breach list \<Rightarrow> world \<Rightarrow> (exn + unit) \<times> world" where
  "store_breaches e [] w = (Inr (), w)"
| "store_breaches e (breach # rest) w =
     (case make_breach_data e breach w of
        (Inl x, w1) \<Rightarrow> (Inl x, w1)
      | (Inr data, w1) \<Rightarrow> store_breaches e rest (upsert data w1))"

text \<open>Whether the date of an entry (or the default, when absent) is read without \<^verbatim>\<open>ValueError\<close>.\<close>

definition date_parses :: "env \<Rightarrow> raw_breach \<Rightarrow> bool" where
  "date_parses e breach =
     (case fromisoformat (fromisoformat_ext e) (get (r_BreachDate breach) ''2024-01-01'') of
        Inl x \<Rightarrow> False
      | Inr date \<Rightarrow> True)"

text \<open>The filter of lines 128-131.\<close>

definition domain_matches :: "string \<Rightarrow> raw_breach \<Rightarrow> bool" where
  "domain_matches domain breach = str_in (lower domain) (lower (get (r_Domain breach) ''''))"

text \<open>The body of the \<^verbatim>\<open>try\<close> block, lines 120-158.\<close>

definition get_domain_breaches_try :: "env \<Rightarrow> string \<Rightarrow> world \<Rightarrow> (exn + scan_result) \<times> world" where
  "get_domain_breaches_try e domain w =
     (let w1 = w\<lparr>requests_made := requests_made w + 1\<rparr>
      in case provider e (requests_made w) of
           Transport_failure msg \<Rightarrow> (Inl (RequestException msg), w1)
         | Http status_code body \<Rightarrow>
             if status_code = 200 then
               (case body of
                  None \<Rightarrow> (Inl JSONDecodeError, w1)
                | Some all_breaches \<Rightarrow>
                    (let domain_breaches = filter (domain_matches domain) all_breaches
                     in case store_breaches e domain_breaches w1 of
                          (Inl x, w2) \<Rightarrow> (Inl x, w2)
                        | (Inr u, w2) \<Rightarrow>
                            (Inr \<lparr>breaches = domain_breaches, count = length domain_breaches,
                                  message = None, error = None\<rparr>, w2)))
             else (Inr \<lparr>breaches = [], count = 0,
                        message = Some ''API rate limit or error'', error = None\<rparr>, w1))"

text \<open>
  The whole function: \<^verbatim>\<open>except Exception as e\<close> (lines 160-161) turns every exception of
  the body into a result. The field \<open>error\<close> holds the exception whose text \<^verbatim>\<open>str(e)\<close>
  the code returns.
\<close>

definition get_domain_breaches :: "env \<Rightarrow> string \<Rightarrow> world \<Rightarrow> (exn + scan_result) \<times> world" where
  "get_domain_breaches e domain w =
     (case get_domain_breaches_try e domain w of
        (Inl x, w1) \<Rightarrow> (Inr \<lparr>breaches = [], count = 0, message = None, error = Some x\<rparr>, w1)
      | (Inr r, w1) \<Rightarrow> (Inr r, w1))"

section \<open>comprehensive_scan (lines 234-280)\<close>

text \<open>One element of \<^verbatim>\<open>scan_results\<close>; a key the code does not set is \<open>None\<close>.\<close>

record scan_entry =
  s_domain :: string
  breaches_found :: "nat option"
  s_status :: string
  s_error :: "exn option"

record scan_report =
  sr_message :: string
  scanned_domains :: nat
  results :: "scan_entry list"

text \<open>Lines 254-264: the alert for one domain with \<open>n\<close> matches, inserted under a fresh \<^verbatim>\<open>_id\<close>.\<close>

definition insert_alert :: "env \<Rightarrow> string \<Rightarrow> nat \<Rightarrow> world \<Rightarrow> world" where
  "insert_alert e domain_name n w =
     (let alert = \<lparr>a_oid = oids_issued w,
                   a_id = uuid4 e (uuids_drawn w),
                   a_domain = domain_name,
                   a_breach_name = ''Multiple breaches detected'',
                   severity = (if n > 5 then ''high'' else ''medium''),
                   a_message = ''Found '' @ str_nat n @ '' breaches for '' @ domain_name,
                   a_created_at = now e (clock_reads w),
                   a_status = ''active'',
                   dismissed_at = None\<rparr>
      in w\<lparr>alerts_collection := alerts_collection w @ [alert],
           uuids_drawn := uuids_drawn w + 1,
           clock_reads := clock_reads w + 1,
           oids_issued := oids_issued w + 1\<rparr>)"

text \<open>
  The body of the loop, lines 242-271, on one watchlist document: the inner \<^verbatim>\<open>try\<close> with
  its \<^verbatim>\<open>except\<close> branch.
\<close>

definition scan_domain :: "env \<Rightarrow> domain_doc \<Rightarrow> scan_entry list \<times> world \<Rightarrow> scan_entry list \<times> world" where
  "scan_domain e domain acc =
     (case acc of (scan_results, w) \<Rightarrow>
        (let domain_name = d_domain domain
         in case get_domain_breaches e domain_name w of
              (Inl x, w1) \<Rightarrow>
                (scan_results @
                   [\<lparr>s_domain = domain_name, breaches_found = None,
                     s_status = ''error'', s_error = Some x\<rparr>], w1)
            | (Inr result, w1) \<Rightarrow>
                (let scan_results1 = scan_results @
                       [\<lparr>s_domain = domain_name, breaches_found = Some (count result),
                         s_status = ''success'', s_error = None\<rparr>]
                 in if count result > 0
                    then (scan_results1, insert_alert e domain_name (count result) w1)
                    else (scan_results1, w1))))"

text \<open>
  Lines 238-277. The outer \<^verbatim>\<open>try\<close> of the function guards the reading of the watchlist, which
  returns here, so its \<^verbatim>\<open>except\<close> branch (line 280) has no case.
\<close>

definition comprehensive_scan :: "env \<Rightarrow> world \<Rightarrow> scan_report \<times> world" where
  "comprehensive_scan e w =
     (case foldl (\<lambda>acc domain. scan_domain e domain acc) ([], w) (domains_collection w) of
        (scan_results, w1) \<Rightarrow>
          (\<lparr>sr_message = ''Comprehensive scan completed'',
            scanned_domains = length scan_results,
            results = scan_results\<rparr>, w1))"

section \<open>add_domain_monitor (lines 163-187)\<close>

record DomainMonitor =
  dm_domain :: string
  dm_email_patterns :: "string list"

text \<open>The answer: the message and \<^verbatim>\<open>str\<close> of the document's \<^verbatim>\<open>_id\<close>.\<close>

record monitor_reply =
  m_message :: string
  m_id :: nat

definition add_domain_monitor :: "env \<Rightarrow> DomainMonitor \<Rightarrow> world \<Rightarrow> monitor_reply \<times> world" where
  "add_domain_monitor e domain_data w =
     (let domain_id = uuid4 e (uuids_drawn w);
          created = now e (clock_reads w);
          w1 = w\<lparr>uuids_drawn := uuids_drawn w + 1, clock_reads := clock_reads w + 1\<rparr>
      in case find (\<lambda>d. d_domain d = dm_domain domain_data) (domains_collection w1) of
           Some existing \<Rightarrow>
             (\<lparr>m_message = ''Domain already being monitored'', m_id = d_oid existing\<rparr>, w1)
         | None \<Rightarrow>
             (let domain_record = \<lparr>d_oid = oids_issued w1,
                                   d_id = domain_id,
                                   d_domain = dm_domain domain_data,
                                   email_patterns = dm_email_patterns domain_data,
                                   d_created_at = created,
                                   d_status = ''active''\<rparr>;
                  w2 = w1\<lparr>domains_collection := domains_collection w1 @ [domain_record],
                          oids_issued := oids_issued w1 + 1\<rparr>;
                  w3 = snd (get_domain_breaches e (dm_domain domain_data) w2)
              in (\<lparr>m_message = ''Domain monitoring activated'', m_id = d_oid domain_record\<rparr>, w3)))"

section \<open>search_email_breaches (lines 196-225)\<close>

record email_reply =
  e_email :: "string option"
  breaches_found_local :: nat
  e_breaches :: "breach_doc list"
  e_status :: "string option"
  e_error :: "exn option"

text \<open>Line 206. The subscript \<^verbatim>\<open>[1]\<close> raises \<^verbatim>\<open>IndexError\<close> on a list of one element.\<close>

definition email_domain :: "string \<Rightarrow> exn + string" where
  "email_domain email =
     (if str_in ''@'' email
      then (case split email CHR ''@'' of p # d # ps \<Rightarrow> Inr d | _ \<Rightarrow> Inl IndexError)
      else Inr '''')"

text \<open>
  The body of the \<^verbatim>\<open>try\<close> block: the query of lines 207-212 reads the collection in order
  and stops after 20 documents. The SHA-1 of line 203 is never used and left out.
\<close>

definition search_email_breaches_try :: "env \<Rightarrow> string \<Rightarrow> world \<Rightarrow> exn + email_reply" where
  "search_email_breaches_try e email w =
     (case email_domain email of
        Inl x \<Rightarrow> Inl x
      | Inr domain \<Rightarrow>
          (case regex_i e domain of
             None \<Rightarrow> Inl (OperationFailure domain)
           | Some matches \<Rightarrow>
               (let local_breaches =
                      take 20 (filter (\<lambda>d. matches (b_domain (b_fields d))
                                          \<or> emails_compromised (b_fields d) > 0)
                                 (breaches_collection w))
                in Inr \<lparr>e_email = Some email,
                        breaches_found_local = length local_breaches,
                        e_breaches = local_breaches,
                        e_status = Some ''scanned'',
                        e_error = None\<rparr>)))"

definition search_email_breaches :: "env \<Rightarrow> string \<Rightarrow> world \<Rightarrow> email_reply \<times> world" where
  "search_email_breaches e email w =
     (case search_email_breaches_try e email w of
        Inl x \<Rightarrow> (\<lparr>e_email = None, breaches_found_local = 0, e_breaches = [],
                   e_status = None, e_error = Some x\<rparr>, w)
      | Inr r \<Rightarrow> (r, w))"

section \<open>dismiss_alert (lines 282-288)\<close>

record dismiss_reply =
  ds_message :: string
  modified :: nat

definition dismiss_alert :: "env \<Rightarrow> string \<Rightarrow> world \<Rightarrow> dismiss_reply \<times> world" where
  "dismiss_alert e alert_id w =
     (let t = now e (clock_reads w)
      in case update_one (\<lambda>a. a_id a = alert_id)
                (\<lambda>a. a\<lparr>a_status := ''dismissed'', dismissed_at := Some t\<rparr>)
                (alerts_collection w) of
           (alerts, matched_count, modified_count) \<Rightarrow>
             (\<lparr>ds_message = ''Alert dismissed'', modified = modified_count\<rparr>,
              w\<lparr>alerts_collection := alerts, clock_reads := clock_reads w + 1\<rparr>))"

section \<open>Sample inputs\<close>

text \<open>A catalogue entry with every field present.\<close>

definition sample_entry :: "string \<Rightarrow> string \<Rightarrow> string \<Rightarrow> raw_breach" where
  "sample_entry name domain date =
     \<lparr>r_Name = Some name, r_Domain = Some domain, r_PwnCount = Some 68648009,
      r_BreachDate = Some date, r_DataClasses = Some [''Email addresses'', ''Passwords''],
      r_Description = Some ''sample'', r_IsVerified = Some True\<rparr>"

text \<open>
  A small regular-expression engine for the examples: the pattern is searched anywhere in
  the subject, letters compared without case, a dot standing for any character but a
  line feed. It is what the store's engine does on patterns made of letters, digits,
  hyphens and dots, and the examples use no other pattern.
\<close>

fun re_here :: "string \<Rightarrow> string \<Rightarrow> bool" where
  "re_here [] s = True"
| "re_here (c # p) [] = False"
| "re_here (c # p) (x # s) =
     ((if c = CHR ''.'' then x \<noteq> CHR 0x0A else lower_char c = lower_char x) \<and> re_here p s)"

fun re_search :: "string \<Rightarrow> string \<Rightarrow> bool" where
  "re_search p [] = re_here p []"
| "re_search p (x # s) = (re_here p (x # s) \<or> re_search p s)"

definition sample_regex_i :: "string \<Rightarrow> (string \<Rightarrow> bool) option" where
  "sample_regex_i p = Some (re_search p)"

definition sample_env :: "(nat \<Rightarrow> response) \<Rightarrow> env" where
  "sample_env p =
     \<lparr>provider = p,
      uuid4 = (\<lambda>k. ''uuid-'' @ str_nat k),
      now = (\<lambda>k. \<lparr>dt_year = 2026, dt_month = 1, dt_day = 1, dt_ms = k\<rparr>),
      fromisoformat_ext = (\<lambda>s. None),
      regex_i = sample_regex_i\<rparr>"

definition empty_world :: world where
  "empty_world =
     \<lparr>breaches_collection = [], domains_collection = [], alerts_collection = [],
      requests_made = 0, uuids_drawn = 0, clock_reads = 0, oids_issued = 0\<rparr>"

text \<open>A provider that times out on the first call and answers 503 afterwards.\<close>

definition failing_provider :: "nat \<Rightarrow> response" where
  "failing_provider k = (if k = 0 then Transport_failure ''timed out'' else Http 503 None)"



text \<open>A normalised record with a given name and count.\<close>

definition sample_data :: "string \<Rightarrow> int \<Rightarrow> breach_data" where
  "sample_data name n =
     \<lparr>b_id = ''uuid'', breach_name = name, b_domain = ''adobe.com'', emails_compromised = n,
      breach_date = \<lparr>dt_year = 2013, dt_month = 10, dt_day = 4, dt_ms = 0\<rparr>,
      data_classes = [''Passwords''], description = ''sample'', verified = True,
      source = ''HaveIBeenPwned'',
      b_created_at = \<lparr>dt_year = 2026, dt_month = 1, dt_day = 1, dt_ms = 0\<rparr>\<rparr>"


definition bare_entry :: raw_breach where
  "bare_entry =
     \<lparr>r_Name = Some ''DropboxBare'', r_Domain = Some ''files.dropbox.com'', r_PwnCount = None,
      r_BreachDate = None, r_DataClasses = None, r_Description = None, r_IsVerified = None\<rparr>"


section \<open>The policy of the specification, for comparison\<close>

text \<open>
  The alert rule in the specification's words: an entry of the report with a match count
  \<open>n > 0\<close> asks for one alert for its domain, of severity high when \<open>n > 5\<close> and medium
  otherwise; an entry with count 0 or without a count asks for none.
\<close>

definition alert_due :: "scan_entry \<Rightarrow> (string \<times> string) list" where
  "alert_due s =
     (case breaches_found s of
        None \<Rightarrow> []
      | Some n \<Rightarrow> if 0 < n then [(s_domain s, if 5 < n then ''high'' else ''medium'')] else [])"

text \<open>
  A provider call has failed when it raised, answered with a status other than 200, or
  sent a body that cannot be decoded.
\<close>

definition call_failed :: "response \<Rightarrow> bool" where
  "call_failed resp =
     (case resp of
        Transport_failure msg \<Rightarrow> True
      | Http status_code body \<Rightarrow> (if status_code = 200 then body = None else True))"

text \<open>A watchlist document for a domain, and a catalogue with six, five and no matches.\<close>

definition watch :: "nat \<Rightarrow> string \<Rightarrow> domain_doc" where
  "watch k name =
     \<lparr>d_oid = k, d_id = ''uuid'', d_domain = name, email_patterns = [],
      d_created_at = \<lparr>dt_year = 2026, dt_month = 1, dt_day = 1, dt_ms = 0\<rparr>,
      d_status = ''active''\<rparr>"

definition tiers_catalog :: "raw_breach list" where
  "tiers_catalog =
     map (\<lambda>n. sample_entry n ''big.com'' ''2016-08-31'') [''B1'', ''B2'', ''B3'', ''B4'', ''B5'', ''B6''] @
     map (\<lambda>n. sample_entry n ''mid.com'' ''2016-08-31'') [''M1'', ''M2'', ''M3'', ''M4'', ''M5'']"


text \<open>A provider whose second call times out, and a second watchlist.\<close>

definition flaky_provider :: "raw_breach list \<Rightarrow> nat \<Rightarrow> response" where
  "flaky_provider catalog k =
     (if k = 1 then Transport_failure ''timed out'' else Http 200 (Some catalog))"

definition tiers_world2 :: world where
  "tiers_world2 =
     empty_world\<lparr>domains_collection := [watch 0 ''mid.com'', watch 1 ''none.com'', watch 2 ''big.com'']\<rparr>"

text \<open>
  The domain an address names, in words: what follows the first \<^verbatim>\<open>@\<close>, up to the next
  \<^verbatim>\<open>@\<close> or the end; empty when the address has no \<^verbatim>\<open>@\<close>.
\<close>

definition text_after_at :: "string \<Rightarrow> string" where
  "text_after_at email =
     takeWhile (\<lambda>c. c \<noteq> CHR ''@'') (drop 1 (dropWhile (\<lambda>c. c \<noteq> CHR ''@'') email))"

text \<open>A repository with one record for linkedin.com, and a ledger with one dismissed alert.\<close>

definition linkedin_world :: world where
  "linkedin_world =
     empty_world\<lparr>breaches_collection :=
       [\<lparr>b_oid = 0, b_fields = (sample_data ''LinkedIn'' 164611595)\<lparr>b_domain := ''linkedin.com''\<rparr>\<rparr>]\<rparr>"

definition dismissed_world :: world where
  "dismissed_world =
     empty_world\<lparr>alerts_collection :=
       [\<lparr>a_oid = 0, a_id = ''alert-1'', a_domain = ''adobe.com'',
         a_breach_name = ''Multiple breaches detected'', severity = ''medium'',
         a_message = ''Found 1 breaches for adobe.com'',
         a_created_at = \<lparr>dt_year = 2025, dt_month = 12, dt_day = 30, dt_ms = 0\<rparr>,
         a_status = ''dismissed'',
         dismissed_at = Some \<lparr>dt_year = 2025, dt_month = 12, dt_day = 31, dt_ms = 0\<rparr>\<rparr>]\<rparr>"

definition example_registration :: DomainMonitor where
  "example_registration = \<lparr>dm_domain = ''example.com'', dm_email_patterns = []\<rparr>"

section \<open>Strings and frames\<close>



subsection \<open>What each step leaves alone\<close>

lemma update_one_length: "length (fst (update_one q f ds)) = length ds"
  by (induction ds) (auto split: prod.splits)

lemma upsert_frame:
  "alerts_collection (upsert d w) = alerts_collection w"
  "domains_collection (upsert d w) = domains_collection w"
  "requests_made (upsert d w) = requests_made w"
  "uuids_drawn (upsert d w) = uuids_drawn w"
  "clock_reads (upsert d w) = clock_reads w"
  by (simp_all add: upsert_def split: prod.splits)

lemma make_breach_data_frame:
  "alerts_collection (snd (make_breach_data e b w)) = alerts_collection w"
  "domains_collection (snd (make_breach_data e b w)) = domains_collection w"
  "requests_made (snd (make_breach_data e b w)) = requests_made w"
  "breaches_collection (snd (make_breach_data e b w)) = breaches_collection w"
  "oids_issued (snd (make_breach_data e b w)) = oids_issued w"
  by (simp_all add: make_breach_data_def Let_def split: sum.splits)

lemma store_breaches_frame:
  "alerts_collection (snd (store_breaches e bs w)) = alerts_collection w \<and>
   domains_collection (snd (store_breaches e bs w)) = domains_collection w \<and>
   requests_made (snd (store_breaches e bs w)) = requests_made w"
proof (induction bs arbitrary: w)
  case Nil
  show ?case by simp
next
  case (Cons b bs)
  obtain r w1 where m: "make_breach_data e b w = (r, w1)" by (cases "make_breach_data e b w")
  have f: "alerts_collection w1 = alerts_collection w" "domains_collection w1 = domains_collection w"
    "requests_made w1 = requests_made w"
    using make_breach_data_frame(1-3)[of e b w] m by simp_all
  show ?case
  proof (cases r)
    case (Inl x)
    then show ?thesis using m f by simp
  next
    case (Inr d)
    then show ?thesis using m f Cons.IH[of "upsert d w1"] by (simp add: upsert_frame)
  qed
qed

lemma get_domain_breaches_try_frame:
  "alerts_collection (snd (get_domain_breaches_try e d w)) = alerts_collection w \<and>
   domains_collection (snd (get_domain_breaches_try e d w)) = domains_collection w \<and>
   requests_made (snd (get_domain_breaches_try e d w)) = requests_made w + 1"
proof (cases "provider e (requests_made w)")
  case (Transport_failure msg)
  then show ?thesis by (simp add: get_domain_breaches_try_def)
next
  case (Http st body)
  show ?thesis
  proof (cases "st = 200")
    case False
    then show ?thesis using Http by (simp add: get_domain_breaches_try_def)
  next
    case True
    show ?thesis
    proof (cases body)
      case None
      then show ?thesis using Http True by (simp add: get_domain_breaches_try_def)
    next
      case (Some cat)
      let ?w1 = "w\<lparr>requests_made := requests_made w + 1\<rparr>"
      let ?m = "filter (domain_matches d) cat"
      have "snd (get_domain_breaches_try e d w) = snd (store_breaches e ?m ?w1)"
        using Http True Some
        by (simp add: get_domain_breaches_try_def Let_def split: prod.splits sum.splits)
      then show ?thesis using store_breaches_frame[of e ?m ?w1] by simp
    qed
  qed
qed

lemma get_domain_breaches_snd:
  "snd (get_domain_breaches e d w) = snd (get_domain_breaches_try e d w)"
  by (simp add: get_domain_breaches_def split: prod.splits sum.splits)

lemma get_domain_breaches_frame:
  "alerts_collection (snd (get_domain_breaches e d w)) = alerts_collection w"
  "domains_collection (snd (get_domain_breaches e d w)) = domains_collection w"
  "requests_made (snd (get_domain_breaches e d w)) = requests_made w + 1"
  using get_domain_breaches_try_frame[of e d w] by (simp_all add: get_domain_breaches_snd)

lemma get_domain_breaches_returns: "\<exists>r. fst (get_domain_breaches e d w) = Inr r"
  by (simp add: get_domain_breaches_def split: prod.splits sum.splits)

section \<open>Claims about get_domain_breaches\<close>

text \<open>
  Claim C4. For every domain, environment and state, \<^verbatim>\<open>get_domain_breaches\<close> returns a
  result and raises nothing. When the provider call fails at the transport level (timeout,
  connection error) the result has no matches, count 0 and the exception as its error
  message; when the provider answers with a status other than 200 the result has no
  matches, count 0 and the message "API rate limit or error".
\<close>

theorem C4_get_domain_breaches_never_raises:
  "\<exists>r. fst (get_domain_breaches e domain w) = Inr r \<and>
     (\<forall>msg. provider e (requests_made w) = Transport_failure msg \<longrightarrow>
        breaches r = [] \<and> count r = 0 \<and> error r = Some (RequestException msg)) \<and>
     (\<forall>status_code body. provider e (requests_made w) = Http status_code body \<and> status_code \<noteq> 200 \<longrightarrow>
        breaches r = [] \<and> count r = 0 \<and> message r = Some ''API rate limit or error''
        \<and> error r = None)"
proof (cases "provider e (requests_made w)")
  case (Transport_failure msg)
  then show ?thesis
    by (simp add: get_domain_breaches_def get_domain_breaches_try_def)
next
  case (Http st body)
  show ?thesis
  proof (cases "st = 200")
    case False
    then show ?thesis using Http
      by (simp add: get_domain_breaches_def get_domain_breaches_try_def)
  next
    case True
    then show ?thesis using Http get_domain_breaches_returns[of e domain w] by auto
  qed
qed


text \<open>The first call of the sample provider times out, the second answers 503.\<close>

theorem C4_get_domain_breaches_never_raises_witness:
  "(\<exists>r. fst (get_domain_breaches (sample_env failing_provider) ''adobe.com'' empty_world) = Inr r \<and>
        breaches r = [] \<and> count r = 0 \<and> error r = Some (RequestException ''timed out'')) \<and>
   (\<exists>r. fst (get_domain_breaches (sample_env failing_provider) ''adobe.com''
              (empty_world\<lparr>requests_made := 1\<rparr>)) = Inr r \<and>
        breaches r = [] \<and> count r = 0 \<and> message r = Some ''API rate limit or error'')"
proof -
  have p0: "provider (sample_env failing_provider) (requests_made empty_world)
              = Transport_failure ''timed out''"
    by (simp add: sample_env_def failing_provider_def empty_world_def)
  have p1: "provider (sample_env failing_provider) (requests_made (empty_world\<lparr>requests_made := 1\<rparr>))
              = Http 503 None"
    by (simp add: sample_env_def failing_provider_def)
  show ?thesis
    using C4_get_domain_breaches_never_raises
            [of "sample_env failing_provider" "''adobe.com''" empty_world]
          C4_get_domain_breaches_never_raises
            [of "sample_env failing_provider" "''adobe.com''" "empty_world\<lparr>requests_made := 1\<rparr>"]
    unfolding p0 p1 by auto
qed

subsection \<open>update\_one and upsert\<close>

lemma update_one_unmatched:
  "\<forall>d\<in>set ds. \<not> q d \<Longrightarrow> update_one q f ds = (ds, 0, 0)"
  by (induction ds) auto

lemma update_one_matched:
  "\<forall>d\<in>set pre. \<not> q d \<Longrightarrow> q a \<Longrightarrow>
   update_one q f (pre @ a # post) = (pre @ f a # post, 1, if f a = a then 0 else 1)"
  by (induction pre) auto

lemma first_match_split:
  "\<exists>d\<in>set ds. q d \<Longrightarrow> \<exists>pre a post. ds = pre @ a # post \<and> (\<forall>d\<in>set pre. \<not> q d) \<and> q a"
  using split_list_first_prop[of ds q] by blast

lemma upsert_absent:
  assumes "\<forall>d\<in>set (breaches_collection w). breach_name (b_fields d) \<noteq> breach_name data"
  shows "breaches_collection (upsert data w) =
           breaches_collection w @ [\<lparr>b_oid = oids_issued w, b_fields = data\<rparr>]"
  using update_one_unmatched[of "breaches_collection w"
          "\<lambda>d. breach_name (b_fields d) = breach_name data" "\<lambda>d. d\<lparr>b_fields := data\<rparr>"] assms
  by (simp add: upsert_def)

lemma upsert_present:
  assumes "breaches_collection w = pre @ a # post"
      and "\<forall>d\<in>set pre. breach_name (b_fields d) \<noteq> breach_name data"
      and "breach_name (b_fields a) = breach_name data"
  shows "breaches_collection (upsert data w) = pre @ a\<lparr>b_fields := data\<rparr> # post"
  using update_one_matched[of pre "\<lambda>d. breach_name (b_fields d) = breach_name data" a
          "\<lambda>d. d\<lparr>b_fields := data\<rparr>" post] assms
  by (simp add: upsert_def)

lemma upsert_names:
  "(\<lambda>d. breach_name (b_fields d)) ` set (breaches_collection (upsert data w)) =
   insert (breach_name data) ((\<lambda>d. breach_name (b_fields d)) ` set (breaches_collection w))"
proof (cases "\<exists>d\<in>set (breaches_collection w). breach_name (b_fields d) = breach_name data")
  case False
  then show ?thesis using upsert_absent[of w data] by auto
next
  case True
  then obtain pre a post where s: "breaches_collection w = pre @ a # post"
    "\<forall>d\<in>set pre. breach_name (b_fields d) \<noteq> breach_name data"
    "breach_name (b_fields a) = breach_name data"
    using first_match_split[of "breaches_collection w"
            "\<lambda>d. breach_name (b_fields d) = breach_name data"] by auto
  show ?thesis using upsert_present[OF s] s by auto
qed

lemma upsert_keeps_invariant:
  assumes "distinct (map (\<lambda>d. breach_name (b_fields d)) (breaches_collection w))"
  shows "distinct (map (\<lambda>d. breach_name (b_fields d)) (breaches_collection (upsert data w))) \<and>
         (\<exists>x. filter (\<lambda>d. breach_name (b_fields d) = breach_name data)
                 (breaches_collection (upsert data w)) = [x] \<and> b_fields x = data)"
proof (cases "\<exists>d\<in>set (breaches_collection w). breach_name (b_fields d) = breach_name data")
  case False
  then have n: "\<forall>d\<in>set (breaches_collection w). breach_name (b_fields d) \<noteq> breach_name data"
    by blast
  have f: "filter (\<lambda>d. breach_name (b_fields d) = breach_name data) (breaches_collection w) = []"
    using n by (simp add: filter_empty_conv)
  show ?thesis using upsert_absent[OF n] assms n f by auto
next
  case True
  then obtain pre a post where s: "breaches_collection w = pre @ a # post"
    "\<forall>d\<in>set pre. breach_name (b_fields d) \<noteq> breach_name data"
    "breach_name (b_fields a) = breach_name data"
    using first_match_split[of "breaches_collection w"
            "\<lambda>d. breach_name (b_fields d) = breach_name data"] by auto
  have post: "\<forall>d\<in>set post. breach_name (b_fields d) \<noteq> breach_name data"
  proof
    fix d assume d: "d \<in> set post"
    have "breach_name data \<notin> (\<lambda>d. breach_name (b_fields d)) ` set post"
      using assms s(1) s(3) by auto
    then show "breach_name (b_fields d) \<noteq> breach_name data"
      using d by (metis imageI)
  qed
  have fpre: "filter (\<lambda>d. breach_name (b_fields d) = breach_name data) pre = []"
    using s(2) by (simp add: filter_empty_conv)
  have fpost: "filter (\<lambda>d. breach_name (b_fields d) = breach_name data) post = []"
    using post by (simp add: filter_empty_conv)
  have names: "map (\<lambda>d. breach_name (b_fields d)) (pre @ a\<lparr>b_fields := data\<rparr> # post) =
               map (\<lambda>d. breach_name (b_fields d)) (pre @ a # post)"
    using s(3) by simp
  show ?thesis
    using upsert_present[OF s] assms s(1) names fpre fpost by simp
qed

lemma upsert_same_name_length:
  assumes "\<exists>d\<in>set (breaches_collection w). breach_name (b_fields d) = breach_name data"
  shows "length (breaches_collection (upsert data w)) = length (breaches_collection w)"
proof -
  obtain pre a post where s: "breaches_collection w = pre @ a # post"
    "\<forall>d\<in>set pre. breach_name (b_fields d) \<noteq> breach_name data"
    "breach_name (b_fields a) = breach_name data"
    using assms first_match_split[of "breaches_collection w"
            "\<lambda>d. breach_name (b_fields d) = breach_name data"] by auto
  show ?thesis using upsert_present[OF s] s(1) by simp
qed

text \<open>
  Claim C3. The upsert of lines 150-154 keeps at most one stored record per breach name.
  From a store whose names are distinct, two upserts with the same name leave exactly one
  record of that name, and its fields are those of the later upsert (every field written
  by the code is replaced); the names stay distinct and the second upsert adds no row.
\<close>

theorem C3_upsert_one_record_per_name:
  assumes "distinct (map (\<lambda>d. breach_name (b_fields d)) (breaches_collection w))"
      and "breach_name first = breach_name later"
  shows "(\<exists>x. filter (\<lambda>d. breach_name (b_fields d) = breach_name later)
                 (breaches_collection (upsert later (upsert first w))) = [x] \<and> b_fields x = later) \<and>
         distinct (map (\<lambda>d. breach_name (b_fields d))
                     (breaches_collection (upsert later (upsert first w)))) \<and>
         length (breaches_collection (upsert later (upsert first w))) =
           length (breaches_collection (upsert first w))"
proof -
  have d1: "distinct (map (\<lambda>d. breach_name (b_fields d)) (breaches_collection (upsert first w)))"
    using upsert_keeps_invariant[OF assms(1), of first] by blast
  have "breach_name first \<in> (\<lambda>d. breach_name (b_fields d)) ` set (breaches_collection (upsert first w))"
    using upsert_names[of first w] by simp
  then have ex: "\<exists>d\<in>set (breaches_collection (upsert first w)).
                   breach_name (b_fields d) = breach_name later"
    using assms(2) by auto
  show ?thesis
    using upsert_keeps_invariant[OF d1, of later] upsert_same_name_length[OF ex] by blast
qed


text \<open>
  Two upserts of the name Adobe with counts 1 and 2 into the empty store leave one record,
  with count 2.
\<close>

theorem C3_upsert_one_record_per_name_witness:
  "(\<exists>x. filter (\<lambda>d. breach_name (b_fields d) = ''Adobe'')
          (breaches_collection
             (upsert (sample_data ''Adobe'' 2) (upsert (sample_data ''Adobe'' 1) empty_world))) = [x]
        \<and> b_fields x = sample_data ''Adobe'' 2) \<and>
   breaches_collection
     (upsert (sample_data ''Adobe'' 2) (upsert (sample_data ''Adobe'' 1) empty_world)) =
     [\<lparr>b_oid = 0, b_fields = sample_data ''Adobe'' 2\<rparr>]"
proof -
  have d: "distinct (map (\<lambda>d. breach_name (b_fields d)) (breaches_collection empty_world))"
    by (simp add: empty_world_def)
  have n: "breach_name (sample_data ''Adobe'' 1) = breach_name (sample_data ''Adobe'' 2)"
    by (simp add: sample_data_def)
  have n2: "breach_name (sample_data ''Adobe'' 2) = ''Adobe''"
    by (simp add: sample_data_def)
  have v: "breaches_collection
     (upsert (sample_data ''Adobe'' 2) (upsert (sample_data ''Adobe'' 1) empty_world)) =
     [\<lparr>b_oid = 0, b_fields = sample_data ''Adobe'' 2\<rparr>]"
    by (simp add: upsert_def empty_world_def sample_data_def)
  show ?thesis
    using C3_upsert_one_record_per_name[OF d n] v unfolding n2 by blast
qed

subsection \<open>The loop of get\_domain\_breaches\<close>


lemma make_breach_data_ok:
  assumes "date_parses e b"
  shows "\<exists>data. make_breach_data e b w =
           (Inr data, w\<lparr>uuids_drawn := uuids_drawn w + 1, clock_reads := clock_reads w + 1\<rparr>) \<and>
         breach_name data = get (r_Name b) '''' \<and>
         b_domain data = get (r_Domain b) '''' \<and>
         emails_compromised data = get (r_PwnCount b) 0 \<and>
         data_classes data = get (r_DataClasses b) [] \<and>
         verified data = get (r_IsVerified b) False \<and>
         fromisoformat (fromisoformat_ext e) (get (r_BreachDate b) ''2024-01-01'')
           = Inr (breach_date data)"
  using assms by (auto simp: make_breach_data_def date_parses_def Let_def split: sum.splits)

lemma make_breach_data_raises:
  assumes "\<not> date_parses e b"
  shows "\<exists>x. make_breach_data e b w = (Inl x, w\<lparr>uuids_drawn := uuids_drawn w + 1\<rparr>)"
  using assms by (auto simp: make_breach_data_def date_parses_def Let_def split: sum.splits)

lemma store_breaches_ok:
  "\<forall>b\<in>set bs. date_parses e b \<Longrightarrow> fst (store_breaches e bs w) = Inr ()"
proof (induction bs arbitrary: w)
  case Nil
  show ?case by simp
next
  case (Cons b bs)
  obtain data where "make_breach_data e b w =
      (Inr data, w\<lparr>uuids_drawn := uuids_drawn w + 1, clock_reads := clock_reads w + 1\<rparr>)"
    using make_breach_data_ok[of e b w] Cons.prems by auto
  then show ?case using Cons by simp
qed



lemma get_domain_breaches_200:
  assumes "provider e (requests_made w) = Http 200 (Some catalog)"
  shows "get_domain_breaches e domain w =
           (case store_breaches e (filter (domain_matches domain) catalog)
                   (w\<lparr>requests_made := requests_made w + 1\<rparr>) of
              (Inl x, w2) \<Rightarrow>
                (Inr \<lparr>breaches = [], count = 0, message = None, error = Some x\<rparr>, w2)
            | (Inr u, w2) \<Rightarrow>
                (Inr \<lparr>breaches = filter (domain_matches domain) catalog,
                      count = length (filter (domain_matches domain) catalog),
                      message = None, error = None\<rparr>, w2))"
  using assms
  by (simp add: get_domain_breaches_def get_domain_breaches_try_def Let_def
           split: prod.splits sum.splits)

lemma get_domain_breaches_success:
  assumes "provider e (requests_made w) = Http 200 (Some catalog)"
      and "\<forall>b\<in>set catalog. domain_matches domain b \<longrightarrow> date_parses e b"
  shows "get_domain_breaches e domain w =
           (Inr \<lparr>breaches = filter (domain_matches domain) catalog,
                 count = length (filter (domain_matches domain) catalog),
                 message = None, error = None\<rparr>,
            snd (store_breaches e (filter (domain_matches domain) catalog)
                   (w\<lparr>requests_made := requests_made w + 1\<rparr>)))"
proof -
  have "fst (store_breaches e (filter (domain_matches domain) catalog)
               (w\<lparr>requests_made := requests_made w + 1\<rparr>)) = Inr ()"
    using store_breaches_ok[of "filter (domain_matches domain) catalog" e] assms(2) by simp
  then show ?thesis
    using get_domain_breaches_200[OF assms(1), of domain]
    by (simp split: prod.splits sum.splits)
qed




lemma sample_dates:
  "date_parses (sample_env p) (sample_entry n d ''2013-10-04'')"
  "date_parses (sample_env p) (sample_entry n d ''2012-05-05'')"
  "date_parses (sample_env p) (sample_entry n d ''2016-08-31'')"
  "\<not> date_parses (sample_env p) (sample_entry n d ''31/08/2016'')"
  "date_parses (sample_env p) bare_entry"
  by (simp_all add: date_parses_def sample_env_def sample_entry_def bare_entry_def get_def
        fromisoformat_def digit_val_def days_in_month_def)












subsection \<open>The loop of comprehensive\_scan\<close>

lemma insert_alert_facts:
  "\<exists>a. alerts_collection (insert_alert e dn n w) = alerts_collection w @ [a] \<and>
       a_domain a = dn \<and> severity a = (if 5 < n then ''high'' else ''medium'') \<and>
       a_status a = ''active'' \<and> dismissed_at a = None"
  "domains_collection (insert_alert e dn n w) = domains_collection w"
  "requests_made (insert_alert e dn n w) = requests_made w"
  "breaches_collection (insert_alert e dn n w) = breaches_collection w"
  by (simp_all add: insert_alert_def Let_def)

lemma scan_domain_step:
  "\<exists>r w1. get_domain_breaches e (d_domain d) w = (Inr r, w1) \<and>
          scan_domain e d (rs, w) =
            (rs @ [\<lparr>s_domain = d_domain d, breaches_found = Some (count r),
                    s_status = ''success'', s_error = None\<rparr>],
             if 0 < count r then insert_alert e (d_domain d) (count r) w1 else w1)"
proof -
  obtain x w1 where g0: "get_domain_breaches e (d_domain d) w = (x, w1)"
    by (cases "get_domain_breaches e (d_domain d) w")
  obtain r where "x = Inr r"
    using get_domain_breaches_returns[of e "d_domain d" w] g0 by auto
  then have g: "get_domain_breaches e (d_domain d) w = (Inr r, w1)" using g0 by simp
  have "scan_domain e d (rs, w) =
            (rs @ [\<lparr>s_domain = d_domain d, breaches_found = Some (count r),
                    s_status = ''success'', s_error = None\<rparr>],
             if 0 < count r then insert_alert e (d_domain d) (count r) w1 else w1)"
    by (simp add: scan_domain_def g Let_def)
  then show ?thesis using g by blast
qed

lemma scan_domain_effect:
  "\<exists>entry w2 new.
      scan_domain e d (rs, w) = (rs @ [entry], w2) \<and>
      s_domain entry = d_domain d \<and> s_status entry = ''success'' \<and> s_error entry = None \<and>
      breaches_found entry = Some (count (projr (fst (get_domain_breaches e (d_domain d) w)))) \<and>
      alerts_collection w2 = alerts_collection w @ new \<and>
      map (\<lambda>a. (a_domain a, severity a)) new = alert_due entry \<and>
      (\<forall>a\<in>set new. a_status a = ''active'') \<and>
      domains_collection w2 = domains_collection w \<and>
      requests_made w2 = requests_made w + 1"
proof -
  obtain r w1 where g: "get_domain_breaches e (d_domain d) w = (Inr r, w1)"
    and s: "scan_domain e d (rs, w) =
            (rs @ [\<lparr>s_domain = d_domain d, breaches_found = Some (count r),
                    s_status = ''success'', s_error = None\<rparr>],
             if 0 < count r then insert_alert e (d_domain d) (count r) w1 else w1)"
    using scan_domain_step[of e d w rs] by blast
  have f: "alerts_collection w1 = alerts_collection w" "domains_collection w1 = domains_collection w"
    "requests_made w1 = requests_made w + 1"
    using get_domain_breaches_frame[of e "d_domain d" w] g by simp_all
  let ?entry = "\<lparr>s_domain = d_domain d, breaches_found = Some (count r),
                    s_status = ''success'', s_error = None\<rparr>"
  show ?thesis
  proof (cases "0 < count r")
    case False
    then have "scan_domain e d (rs, w) = (rs @ [?entry], w1)" using s by simp
    moreover have "alerts_collection w1 = alerts_collection w @ []" using f by simp
    moreover have "map (\<lambda>a. (a_domain a, severity a)) [] = alert_due ?entry"
      using False by (simp add: alert_due_def)
    ultimately show ?thesis using f g by fastforce
  next
    case True
    obtain a where a: "alerts_collection (insert_alert e (d_domain d) (count r) w1) =
                         alerts_collection w1 @ [a]"
      "a_domain a = d_domain d" "severity a = (if 5 < count r then ''high'' else ''medium'')"
      "a_status a = ''active''"
      using insert_alert_facts(1)[of e "d_domain d" "count r" w1] by blast
    have "scan_domain e d (rs, w) = (rs @ [?entry], insert_alert e (d_domain d) (count r) w1)"
      using s True by simp
    moreover have "alerts_collection (insert_alert e (d_domain d) (count r) w1) =
                   alerts_collection w @ [a]" using a f by simp
    moreover have "map (\<lambda>a. (a_domain a, severity a)) [a] = alert_due ?entry"
      using True a by (simp add: alert_due_def)
    moreover have "\<forall>x\<in>set [a]. a_status x = ''active''" using a by simp
    ultimately show ?thesis using f g by (fastforce simp: insert_alert_facts)
  qed
qed

lemma scan_loop_effect:
  "\<exists>es w2 new.
      foldl (\<lambda>acc domain. scan_domain e domain acc) (rs, w) ds = (rs @ es, w2) \<and>
      map s_domain es = map d_domain ds \<and>
      alerts_collection w2 = alerts_collection w @ new \<and>
      map (\<lambda>a. (a_domain a, severity a)) new = concat (map alert_due es) \<and>
      (\<forall>a\<in>set new. a_status a = ''active'') \<and>
      domains_collection w2 = domains_collection w \<and>
      requests_made w2 = requests_made w + length ds"
proof (induction ds arbitrary: rs w)
  case Nil
  show ?case by simp
next
  case (Cons d ds)
  obtain entry w1 new1 where s: "scan_domain e d (rs, w) = (rs @ [entry], w1)"
      "s_domain entry = d_domain d"
      "alerts_collection w1 = alerts_collection w @ new1"
      "map (\<lambda>a. (a_domain a, severity a)) new1 = alert_due entry"
      "\<forall>a\<in>set new1. a_status a = ''active''"
      "domains_collection w1 = domains_collection w"
      "requests_made w1 = requests_made w + 1"
    using scan_domain_effect[of e d rs w] by blast
  obtain es w2 new2 where t:
      "foldl (\<lambda>acc domain. scan_domain e domain acc) (rs @ [entry], w1) ds = ((rs @ [entry]) @ es, w2)"
      "map s_domain es = map d_domain ds"
      "alerts_collection w2 = alerts_collection w1 @ new2"
      "map (\<lambda>a. (a_domain a, severity a)) new2 = concat (map alert_due es)"
      "\<forall>a\<in>set new2. a_status a = ''active''"
      "domains_collection w2 = domains_collection w1"
      "requests_made w2 = requests_made w1 + length ds"
    using Cons.IH[of "rs @ [entry]" w1] by blast
  have 1: "foldl (\<lambda>acc domain. scan_domain e domain acc) (rs, w) (d # ds) = (rs @ (entry # es), w2)"
    using s(1) t(1) by simp
  have 2: "map s_domain (entry # es) = map d_domain (d # ds)" using s(2) t(2) by simp
  have 3: "alerts_collection w2 = alerts_collection w @ (new1 @ new2)" using s(3) t(3) by simp
  have 4: "map (\<lambda>a. (a_domain a, severity a)) (new1 @ new2) = concat (map alert_due (entry # es))"
    using s(4) t(4) by simp
  have 5: "\<forall>a\<in>set (new1 @ new2). a_status a = ''active''" using s(5) t(5) by auto
  have 6: "domains_collection w2 = domains_collection w" using s(6) t(6) by simp
  have 7: "requests_made w2 = requests_made w + length (d # ds)" using s(7) t(7) by simp
  show ?case using 1 2 3 4 5 6 7 by blast
qed

lemma get_domain_breaches_failed:
  assumes "call_failed (provider e (requests_made w))"
  shows "\<exists>r. get_domain_breaches e domain w = (Inr r, w\<lparr>requests_made := requests_made w + 1\<rparr>) \<and>
           breaches r = [] \<and> count r = 0"
proof (cases "provider e (requests_made w)")
  case (Transport_failure msg)
  then show ?thesis by (simp add: get_domain_breaches_def get_domain_breaches_try_def)
next
  case (Http st body)
  then show ?thesis using assms
    by (auto simp: call_failed_def get_domain_breaches_def get_domain_breaches_try_def
          split: if_splits)
qed

lemma scan_domain_failed:
  assumes "call_failed (provider e (requests_made w))"
  shows "scan_domain e d (rs, w) =
           (rs @ [\<lparr>s_domain = d_domain d, breaches_found = Some 0,
                   s_status = ''success'', s_error = None\<rparr>],
            w\<lparr>requests_made := requests_made w + 1\<rparr>)"
proof -
  obtain r where "get_domain_breaches e (d_domain d) w =
      (Inr r, w\<lparr>requests_made := requests_made w + 1\<rparr>)" "count r = 0"
    using get_domain_breaches_failed[OF assms, of "d_domain d"] by blast
  then show ?thesis by (simp add: scan_domain_def Let_def)
qed

lemma scan_domain_200:
  assumes "provider e (requests_made w) = Http 200 (Some catalog)"
      and "\<forall>b\<in>set catalog. domain_matches (d_domain d) b \<longrightarrow> date_parses e b"
  shows "\<exists>w2 new. scan_domain e d (rs, w) =
           (rs @ [\<lparr>s_domain = d_domain d,
                   breaches_found = Some (length (filter (domain_matches (d_domain d)) catalog)),
                   s_status = ''success'', s_error = None\<rparr>], w2) \<and>
           requests_made w2 = requests_made w + 1 \<and>
           domains_collection w2 = domains_collection w \<and>
           alerts_collection w2 = alerts_collection w @ new \<and>
           map a_domain new =
             (if 0 < length (filter (domain_matches (d_domain d)) catalog) then [d_domain d] else [])"
proof -
  let ?n = "length (filter (domain_matches (d_domain d)) catalog)"
  let ?w1 = "snd (store_breaches e (filter (domain_matches (d_domain d)) catalog)
                   (w\<lparr>requests_made := requests_made w + 1\<rparr>))"
  have g: "get_domain_breaches e (d_domain d) w =
           (Inr \<lparr>breaches = filter (domain_matches (d_domain d)) catalog, count = ?n,
                 message = None, error = None\<rparr>, ?w1)"
    using get_domain_breaches_success[OF assms] by simp
  have f: "alerts_collection ?w1 = alerts_collection w" "domains_collection ?w1 = domains_collection w"
    "requests_made ?w1 = requests_made w + 1"
    using get_domain_breaches_frame[of e "d_domain d" w] g by simp_all
  have s: "scan_domain e d (rs, w) =
           (rs @ [\<lparr>s_domain = d_domain d, breaches_found = Some ?n,
                   s_status = ''success'', s_error = None\<rparr>],
            if 0 < ?n then insert_alert e (d_domain d) ?n ?w1 else ?w1)"
    by (simp add: scan_domain_def g Let_def)
  show ?thesis
  proof (cases "0 < ?n")
    case False
    then have "scan_domain e d (rs, w) =
           (rs @ [\<lparr>s_domain = d_domain d, breaches_found = Some ?n,
                   s_status = ''success'', s_error = None\<rparr>], ?w1)"
      using s by simp
    moreover have "alerts_collection ?w1 = alerts_collection w @ []" using f by simp
    moreover have "map a_domain [] = (if 0 < ?n then [d_domain d] else [])" using False by simp
    ultimately show ?thesis using f(2,3) by blast
  next
    case True
    obtain a where a: "alerts_collection (insert_alert e (d_domain d) ?n ?w1) =
                         alerts_collection ?w1 @ [a]" "a_domain a = d_domain d"
      using insert_alert_facts(1)[of e "d_domain d" ?n ?w1] by blast
    let ?w2 = "insert_alert e (d_domain d) ?n ?w1"
    have "scan_domain e d (rs, w) =
           (rs @ [\<lparr>s_domain = d_domain d, breaches_found = Some ?n,
                   s_status = ''success'', s_error = None\<rparr>], ?w2)"
      using s True by simp
    moreover have "requests_made ?w2 = requests_made w + 1"
      using f by (simp add: insert_alert_facts)
    moreover have "domains_collection ?w2 = domains_collection w"
      using f by (simp add: insert_alert_facts)
    moreover have "alerts_collection ?w2 = alerts_collection w @ [a]" using a f by simp
    moreover have "map a_domain [a] = (if 0 < ?n then [d_domain d] else [])"
      using True a by simp
    ultimately show ?thesis by blast
  qed
qed

lemma scan_three:
  assumes "domains_collection w = [A, B, C]"
      and "provider e (requests_made w) = Http 200 (Some catalog_a)"
      and "\<forall>b\<in>set catalog_a. domain_matches (d_domain A) b \<longrightarrow> date_parses e b"
      and "call_failed (provider e (requests_made w + 1))"
      and "provider e (requests_made w + 2) = Http 200 (Some catalog_c)"
      and "\<forall>b\<in>set catalog_c. domain_matches (d_domain C) b \<longrightarrow> date_parses e b"
  shows "\<exists>w' new.
           comprehensive_scan e w =
             (\<lparr>sr_message = ''Comprehensive scan completed'', scanned_domains = 3,
               results =
                 [\<lparr>s_domain = d_domain A,
                   breaches_found = Some (length (filter (domain_matches (d_domain A)) catalog_a)),
                   s_status = ''success'', s_error = None\<rparr>,
                  \<lparr>s_domain = d_domain B, breaches_found = Some 0,
                   s_status = ''success'', s_error = None\<rparr>,
                  \<lparr>s_domain = d_domain C,
                   breaches_found = Some (length (filter (domain_matches (d_domain C)) catalog_c)),
                   s_status = ''success'', s_error = None\<rparr>]\<rparr>, w') \<and>
           alerts_collection w' = alerts_collection w @ new \<and>
           map a_domain new =
             (if 0 < length (filter (domain_matches (d_domain A)) catalog_a) then [d_domain A] else []) @
             (if 0 < length (filter (domain_matches (d_domain C)) catalog_c) then [d_domain C] else [])"
proof -
  let ?ea = "\<lparr>s_domain = d_domain A,
                   breaches_found = Some (length (filter (domain_matches (d_domain A)) catalog_a)),
                   s_status = ''success'', s_error = None\<rparr>"
  let ?eb = "\<lparr>s_domain = d_domain B, breaches_found = Some 0,
                   s_status = ''success'', s_error = None\<rparr>"
  let ?ec = "\<lparr>s_domain = d_domain C,
                   breaches_found = Some (length (filter (domain_matches (d_domain C)) catalog_c)),
                   s_status = ''success'', s_error = None\<rparr>"
  obtain w1 new1 where 1: "scan_domain e A ([], w) = ([] @ [?ea], w1)"
      "requests_made w1 = requests_made w + 1"
      "alerts_collection w1 = alerts_collection w @ new1"
      "map a_domain new1 =
         (if 0 < length (filter (domain_matches (d_domain A)) catalog_a) then [d_domain A] else [])"
    using scan_domain_200[OF assms(2,3), of "[]"] by blast
  have fb: "call_failed (provider e (requests_made w1))" using assms(4) 1(2) by simp
  let ?w2 = "w1\<lparr>requests_made := requests_made w1 + 1\<rparr>"
  have 2: "scan_domain e B ([?ea], w1) = ([?ea] @ [?eb], ?w2)"
    using scan_domain_failed[OF fb, of B "[?ea]"] by simp
  have pc: "provider e (requests_made ?w2) = Http 200 (Some catalog_c)"
    using assms(5) 1(2) by simp
  obtain w3 new3 where 3: "scan_domain e C ([?ea, ?eb], ?w2) = ([?ea, ?eb] @ [?ec], w3)"
      "alerts_collection w3 = alerts_collection ?w2 @ new3"
      "map a_domain new3 =
         (if 0 < length (filter (domain_matches (d_domain C)) catalog_c) then [d_domain C] else [])"
    using scan_domain_200[OF pc assms(6), of "[?ea, ?eb]"] by blast
  have loop: "foldl (\<lambda>acc domain. scan_domain e domain acc) ([], w) [A, B, C] = ([?ea, ?eb, ?ec], w3)"
    using 1(1) 2 3(1) by simp
  have c: "comprehensive_scan e w =
             (\<lparr>sr_message = ''Comprehensive scan completed'', scanned_domains = 3,
               results = [?ea, ?eb, ?ec]\<rparr>, w3)"
    using loop assms(1) by (simp add: comprehensive_scan_def)
  have al: "alerts_collection w3 = alerts_collection w @ (new1 @ new3)"
    using 1(3) 3(2) by simp
  have dm: "map a_domain (new1 @ new3) =
             (if 0 < length (filter (domain_matches (d_domain A)) catalog_a) then [d_domain A] else []) @
             (if 0 < length (filter (domain_matches (d_domain C)) catalog_c) then [d_domain C] else [])"
    using 1(4) 3(3) by simp
  show ?thesis using c al dm by blast
qed

text \<open>
  Claim C2. A comprehensive scan appends to the alert collection exactly the alerts the
  rule \<open>alert_due\<close> asks for, in watchlist order: for each report entry with match count
  \<open>n > 0\<close> one alert for that domain (never one per matched breach), of severity high when
  \<open>n > 5\<close> and medium when \<open>0 < n \<le> 5\<close>, with status active; for an entry with count 0
  none. The report has one entry per watchlist document. In particular a count of 6 gives
  high, 5 gives medium and 0 gives no alert.
\<close>

theorem C2_one_alert_per_domain_with_matches:
  assumes "comprehensive_scan e w = (report, w')"
  shows "\<exists>new. alerts_collection w' = alerts_collection w @ new \<and>
           map (\<lambda>a. (a_domain a, severity a)) new = concat (map alert_due (results report)) \<and>
           (\<forall>a\<in>set new. a_status a = ''active'') \<and>
           map s_domain (results report) = map d_domain (domains_collection w) \<and>
           alert_due \<lparr>s_domain = name, breaches_found = Some 6, s_status = ''success'', s_error = None\<rparr>
             = [(name, ''high'')] \<and>
           alert_due \<lparr>s_domain = name, breaches_found = Some 5, s_status = ''success'', s_error = None\<rparr>
             = [(name, ''medium'')] \<and>
           alert_due \<lparr>s_domain = name, breaches_found = Some 0, s_status = ''success'', s_error = None\<rparr>
             = []"
proof -
  obtain es w2 new where l:
      "foldl (\<lambda>acc domain. scan_domain e domain acc) ([], w) (domains_collection w) = ([] @ es, w2)"
      "map s_domain es = map d_domain (domains_collection w)"
      "alerts_collection w2 = alerts_collection w @ new"
      "map (\<lambda>a. (a_domain a, severity a)) new = concat (map alert_due es)"
      "\<forall>a\<in>set new. a_status a = ''active''"
    using scan_loop_effect[of e "[]" w "domains_collection w"] by blast
  have "report = \<lparr>sr_message = ''Comprehensive scan completed'',
                  scanned_domains = length es, results = es\<rparr>" "w' = w2"
    using assms l(1) by (auto simp: comprehensive_scan_def)
  then have "results report = es" "w' = w2" by simp_all
  then show ?thesis using l(2-5) by (auto simp: alert_due_def)
qed


lemma tiers_counts:
  "length (filter (domain_matches ''big.com'') tiers_catalog) = 6"
  "length (filter (domain_matches ''mid.com'') tiers_catalog) = 5"
  "length (filter (domain_matches ''none.com'') tiers_catalog) = 0"
  by code_simp+

lemma tiers_dates: "\<forall>b\<in>set tiers_catalog. domain_matches d b \<longrightarrow> date_parses (sample_env p) b"
  by (simp add: tiers_catalog_def sample_dates)

lemma flaky_calls:
  "provider (sample_env (flaky_provider c)) (requests_made empty_world) = Http 200 (Some c)"
  "call_failed (provider (sample_env (flaky_provider c)) (requests_made empty_world + 1))"
  "provider (sample_env (flaky_provider c)) (requests_made empty_world + 2) = Http 200 (Some c)"
  by (simp_all add: sample_env_def flaky_provider_def empty_world_def call_failed_def)

text \<open>
  A watchlist of mid.com (five matches), none.com (its provider call times out) and
  big.com (six matches): the scan inserts a medium alert for mid.com and a high alert for
  big.com.
\<close>

theorem C2_one_alert_per_domain_with_matches_witness:
  "\<exists>new. alerts_collection (snd (comprehensive_scan (sample_env (flaky_provider tiers_catalog)) tiers_world2))
            = new \<and>
         map (\<lambda>a. (a_domain a, severity a)) new = [(''mid.com'', ''medium''), (''big.com'', ''high'')]"
proof -
  let ?e = "sample_env (flaky_provider tiers_catalog)"
  have w: "domains_collection tiers_world2 = [watch 0 ''mid.com'', watch 1 ''none.com'', watch 2 ''big.com'']"
    "requests_made tiers_world2 = requests_made empty_world" "alerts_collection tiers_world2 = []"
    by (simp_all add: tiers_world2_def empty_world_def)
  have n: "d_domain (watch 0 ''mid.com'') = ''mid.com''" "d_domain (watch 1 ''none.com'') = ''none.com''"
    "d_domain (watch 2 ''big.com'') = ''big.com''"
    by (simp_all add: watch_def)
  obtain w' where c: "comprehensive_scan ?e tiers_world2 =
      (\<lparr>sr_message = ''Comprehensive scan completed'', scanned_domains = 3,
        results =
          [\<lparr>s_domain = ''mid.com'', breaches_found = Some 5, s_status = ''success'', s_error = None\<rparr>,
           \<lparr>s_domain = ''none.com'', breaches_found = Some 0, s_status = ''success'', s_error = None\<rparr>,
           \<lparr>s_domain = ''big.com'', breaches_found = Some 6, s_status = ''success'', s_error = None\<rparr>]\<rparr>,
       w')"
    using scan_three[of tiers_world2 "watch 0 ''mid.com''" "watch 1 ''none.com''" "watch 2 ''big.com''"
            ?e tiers_catalog tiers_catalog]
          w(1) flaky_calls[of tiers_catalog] tiers_dates
    unfolding w(2) n tiers_counts by blast
  obtain new where a: "alerts_collection w' = alerts_collection tiers_world2 @ new"
      "map (\<lambda>a. (a_domain a, severity a)) new =
         concat (map alert_due
           [\<lparr>s_domain = ''mid.com'', breaches_found = Some 5, s_status = ''success'', s_error = None\<rparr>,
            \<lparr>s_domain = ''none.com'', breaches_found = Some 0, s_status = ''success'', s_error = None\<rparr>,
            \<lparr>s_domain = ''big.com'', breaches_found = Some 6, s_status = ''success'', s_error = None\<rparr>])"
    using C2_one_alert_per_domain_with_matches[OF c] by auto
  have "map (\<lambda>a. (a_domain a, severity a)) new = [(''mid.com'', ''medium''), (''big.com'', ''high'')]"
    using a(2) by (simp add: alert_due_def)
  then show ?thesis using a(1) c w(3) by simp
qed





subsection \<open>dismiss\_alert\<close>

lemma dismiss_changes:
  "(a\<lparr>a_status := ''dismissed'', dismissed_at := Some t\<rparr> = a) =
   (a_status a = ''dismissed'' \<and> dismissed_at a = Some t)"
  by (cases a) auto

text \<open>
  Claim C7, as amended. \<^verbatim>\<open>dismiss_alert\<close> returns for every alert id and raises nothing.
  When no alert has the id, it reports modified 0 and leaves the ledger as it was. When an
  alert has the id, the first such alert, active or already dismissed, gets status
  dismissed and the current time as its dismissed-at; modified is 1 when that changed the
  stored alert (always for an active alert) and 0 when it did not.
\<close>

theorem C7_dismiss_by_id_only:
  "(alert_id \<notin> a_id ` set (alerts_collection w) \<longrightarrow>
      dismiss_alert e alert_id w =
        (\<lparr>ds_message = ''Alert dismissed'', modified = 0\<rparr>, w\<lparr>clock_reads := clock_reads w + 1\<rparr>)) \<and>
   (\<forall>pre a post.
      alerts_collection w = pre @ a # post \<and> alert_id \<notin> a_id ` set pre \<and> a_id a = alert_id \<longrightarrow>
      dismiss_alert e alert_id w =
        (\<lparr>ds_message = ''Alert dismissed'',
          modified = (if a_status a = ''dismissed'' \<and> dismissed_at a = Some (now e (clock_reads w))
                      then 0 else 1)\<rparr>,
         w\<lparr>alerts_collection :=
              pre @ a\<lparr>a_status := ''dismissed'', dismissed_at := Some (now e (clock_reads w))\<rparr> # post,
            clock_reads := clock_reads w + 1\<rparr>))"
proof (intro conjI allI impI)
  assume "alert_id \<notin> a_id ` set (alerts_collection w)"
  then have "\<forall>a\<in>set (alerts_collection w). \<not> a_id a = alert_id" by auto
  then have "update_one (\<lambda>a. a_id a = alert_id)
               (\<lambda>a. a\<lparr>a_status := ''dismissed'', dismissed_at := Some (now e (clock_reads w))\<rparr>)
               (alerts_collection w) = (alerts_collection w, 0, 0)"
    by (rule update_one_unmatched)
  then show "dismiss_alert e alert_id w =
        (\<lparr>ds_message = ''Alert dismissed'', modified = 0\<rparr>, w\<lparr>clock_reads := clock_reads w + 1\<rparr>)"
    by (simp add: dismiss_alert_def Let_def)
next
  fix pre a post
  assume h: "alerts_collection w = pre @ a # post \<and> alert_id \<notin> a_id ` set pre \<and> a_id a = alert_id"
  let ?f = "\<lambda>a. a\<lparr>a_status := ''dismissed'', dismissed_at := Some (now e (clock_reads w))\<rparr>"
  have "\<forall>x\<in>set pre. \<not> a_id x = alert_id" using h by (metis imageI)
  then have "update_one (\<lambda>a. a_id a = alert_id) ?f (pre @ a # post) =
               (pre @ ?f a # post, 1, if ?f a = a then 0 else 1)"
    using h by (intro update_one_matched) auto
  then show "dismiss_alert e alert_id w =
        (\<lparr>ds_message = ''Alert dismissed'',
          modified = (if a_status a = ''dismissed'' \<and> dismissed_at a = Some (now e (clock_reads w))
                      then 0 else 1)\<rparr>,
         w\<lparr>alerts_collection := pre @ ?f a # post, clock_reads := clock_reads w + 1\<rparr>)"
    using h by (simp add: dismiss_alert_def Let_def dismiss_changes)
qed

text \<open>
  Claim C7 as stated fails on an alert that is already dismissed: the filter of line 285
  tests the id only, so a second dismissal writes a new dismissed-at and reports modified 1.
\<close>

theorem C7_redismissal_modifies_counterexample:
  "map (\<lambda>a. (a_id a, a_status a, dismissed_at a)) (alerts_collection dismissed_world) =
     [(''alert-1'', ''dismissed'', Some \<lparr>dt_year = 2025, dt_month = 12, dt_day = 31, dt_ms = 0\<rparr>)] \<and>
   modified (fst (dismiss_alert (sample_env failing_provider) ''alert-1'' dismissed_world)) = 1 \<and>
   map (\<lambda>a. (a_id a, a_status a, dismissed_at a))
     (alerts_collection (snd (dismiss_alert (sample_env failing_provider) ''alert-1'' dismissed_world))) =
     [(''alert-1'', ''dismissed'', Some \<lparr>dt_year = 2026, dt_month = 1, dt_day = 1, dt_ms = 0\<rparr>)]"
  by (simp add: dismiss_alert_def dismissed_world_def empty_world_def sample_env_def Let_def)

text \<open>
  An unknown id changes nothing and reports 0; dismissing the active alert reports 1.
\<close>

theorem C7_dismiss_by_id_only_witness:
  "dismiss_alert (sample_env failing_provider) ''alert-2'' dismissed_world =
     (\<lparr>ds_message = ''Alert dismissed'', modified = 0\<rparr>, dismissed_world\<lparr>clock_reads := 1\<rparr>) \<and>
   dismiss_alert (sample_env failing_provider) ''alert-1''
      (dismissed_world\<lparr>alerts_collection :=
         map (\<lambda>a. a\<lparr>a_status := ''active'', dismissed_at := None\<rparr>) (alerts_collection dismissed_world)\<rparr>) =
     (\<lparr>ds_message = ''Alert dismissed'', modified = 1\<rparr>,
      dismissed_world\<lparr>alerts_collection :=
         map (\<lambda>a. a\<lparr>dismissed_at := Some \<lparr>dt_year = 2026, dt_month = 1, dt_day = 1, dt_ms = 0\<rparr>\<rparr>)
           (alerts_collection dismissed_world), clock_reads := 1\<rparr>)"
proof -
  let ?e = "sample_env failing_provider"
  let ?a = "hd (alerts_collection dismissed_world)"
  let ?w = "dismissed_world\<lparr>alerts_collection :=
         map (\<lambda>a. a\<lparr>a_status := ''active'', dismissed_at := None\<rparr>) (alerts_collection dismissed_world)\<rparr>"
  have n: "''alert-2'' \<notin> a_id ` set (alerts_collection dismissed_world)"
    by (simp add: dismissed_world_def empty_world_def)
  have c: "clock_reads dismissed_world + 1 = 1"
    by (simp add: dismissed_world_def empty_world_def)
  have 1: "dismiss_alert ?e ''alert-2'' dismissed_world =
     (\<lparr>ds_message = ''Alert dismissed'', modified = 0\<rparr>, dismissed_world\<lparr>clock_reads := 1\<rparr>)"
    using C7_dismiss_by_id_only[of "''alert-2''" dismissed_world ?e] n c by simp
  have s: "alerts_collection ?w = [] @ ?a\<lparr>a_status := ''active'', dismissed_at := None\<rparr> # [] \<and>
           ''alert-1'' \<notin> a_id ` set [] \<and>
           a_id (?a\<lparr>a_status := ''active'', dismissed_at := None\<rparr>) = ''alert-1''"
    by (simp add: dismissed_world_def empty_world_def)
  have 2: "dismiss_alert ?e ''alert-1'' ?w =
     (\<lparr>ds_message = ''Alert dismissed'', modified = 1\<rparr>,
      dismissed_world\<lparr>alerts_collection :=
         map (\<lambda>a. a\<lparr>dismissed_at := Some \<lparr>dt_year = 2026, dt_month = 1, dt_day = 1, dt_ms = 0\<rparr>\<rparr>)
           (alerts_collection dismissed_world), clock_reads := 1\<rparr>)"
    using C7_dismiss_by_id_only[of "''alert-1''" ?w ?e, THEN conjunct2, rule_format,
            of "[]" "?a\<lparr>a_status := ''active'', dismissed_at := None\<rparr>" "[]", OF s]
    by (simp add: dismissed_world_def empty_world_def sample_env_def)
  show ?thesis using 1 2 by simp
qed

subsection \<open>search\_email\_breaches\<close>

lemma str_in_char: "str_in [c] s \<longleftrightarrow> c \<in> set s"
  by (induction s) auto

lemma split_acc_shape:
  "split_acc c acc s =
     (rev acc @ takeWhile (\<lambda>x. x \<noteq> c) s) #
     (case dropWhile (\<lambda>x. x \<noteq> c) s of [] \<Rightarrow> [] | x # rest \<Rightarrow> split_acc c [] rest)"
  by (induction s arbitrary: acc) auto

lemma email_domain_eq: "email_domain email = Inr (text_after_at email)"
proof (cases "CHR ''@'' \<in> set email")
  case False
  then have dw: "dropWhile (\<lambda>c. c \<noteq> CHR ''@'') email = []" by auto
  show ?thesis using False unfolding text_after_at_def dw
    by (simp add: email_domain_def str_in_char)
next
  case True
  then obtain x rest where d: "dropWhile (\<lambda>c. c \<noteq> CHR ''@'') email = x # rest"
    by (cases "dropWhile (\<lambda>c. c \<noteq> CHR ''@'') email") auto
  have 1: "split email CHR ''@'' =
          takeWhile (\<lambda>c. c \<noteq> CHR ''@'') email # split_acc CHR ''@'' [] rest"
    using split_acc_shape[of "CHR ''@''" "[]" email] d by (simp add: split_def)
  obtain tl' where 2: "split_acc CHR ''@'' [] rest = takeWhile (\<lambda>c. c \<noteq> CHR ''@'') rest # tl'"
    using split_acc_shape[of "CHR ''@''" "[]" rest] by simp
  show ?thesis using True 1 2 d by (simp add: email_domain_def text_after_at_def str_in_char)
qed

text \<open>
  Claim C6, as amended. For every address, \<^verbatim>\<open>search_email_breaches\<close> takes as domain the
  text after the first \<^verbatim>\<open>@\<close> up to the next \<^verbatim>\<open>@\<close> or the end (empty without an
  \<^verbatim>\<open>@\<close>), calls no provider and leaves the state as it was. It returns the first 20
  stored records, in store order, whose domain field matches that text used as a
  case-insensitive regular expression, or whose count of compromised addresses is
  positive, with their number. When the store rejects the pattern it returns an empty
  result with the error.
\<close>

theorem C6_email_search_regex_or_count:
  "search_email_breaches e email w =
     (case regex_i e (text_after_at email) of
        None \<Rightarrow>
          (\<lparr>e_email = None, breaches_found_local = 0, e_breaches = [], e_status = None,
            e_error = Some (OperationFailure (text_after_at email))\<rparr>, w)
      | Some matches \<Rightarrow>
          (\<lparr>e_email = Some email,
            breaches_found_local =
              length (take 20 (filter (\<lambda>d. matches (b_domain (b_fields d))
                                          \<or> 0 < emails_compromised (b_fields d))
                                 (breaches_collection w))),
            e_breaches =
              take 20 (filter (\<lambda>d. matches (b_domain (b_fields d))
                                   \<or> 0 < emails_compromised (b_fields d))
                         (breaches_collection w)),
            e_status = Some ''scanned'', e_error = None\<rparr>, w))"
  by (simp add: search_email_breaches_def search_email_breaches_try_def email_domain_eq Let_def
        split: option.splits)

lemma after_at_example: "text_after_at ''user@adobe.com'' = ''adobe.com''"
  by (simp add: text_after_at_def)

lemma no_adobe_in_linkedin:
  "\<not> str_in (lower ''adobe.com'') (lower ''linkedin.com'')"
  "\<not> re_search ''adobe.com'' ''linkedin.com''"
  by code_simp+

text \<open>
  Claim C6 as stated fails: the search for user@adobe.com returns the stored record of
  linkedin.com, whose domain does not contain adobe.com, because the query of lines
  207-212 also accepts every record with a positive count.
\<close>

theorem C6_unrelated_record_returned_counterexample:
  "email_domain ''user@adobe.com'' = Inr ''adobe.com'' \<and>
   map (\<lambda>d. b_domain (b_fields d)) (breaches_collection linkedin_world) = [''linkedin.com''] \<and>
   \<not> str_in (lower ''adobe.com'') (lower ''linkedin.com'') \<and>
   e_breaches (fst (search_email_breaches (sample_env failing_provider) ''user@adobe.com'' linkedin_world))
     = breaches_collection linkedin_world"
proof -
  have 1: "email_domain ''user@adobe.com'' = Inr ''adobe.com''"
    by (simp add: email_domain_eq after_at_example)
  have 2: "map (\<lambda>d. b_domain (b_fields d)) (breaches_collection linkedin_world) = [''linkedin.com'']"
    by (simp add: linkedin_world_def empty_world_def)
  have 3: "search_email_breaches_try (sample_env failing_provider) ''user@adobe.com'' linkedin_world =
           Inr \<lparr>e_email = Some ''user@adobe.com'', breaches_found_local = 1,
                e_breaches = breaches_collection linkedin_world,
                e_status = Some ''scanned'', e_error = None\<rparr>"
    by (simp add: search_email_breaches_try_def 1 sample_env_def sample_regex_i_def
          linkedin_world_def empty_world_def sample_data_def)
  show ?thesis using 1 2 3 no_adobe_in_linkedin(1) by (simp add: search_email_breaches_def)
qed

text \<open>
  The same search, from the theorem.
\<close>

theorem C6_email_search_regex_or_count_witness:
  "search_email_breaches (sample_env failing_provider) ''user@adobe.com'' linkedin_world =
     (\<lparr>e_email = Some ''user@adobe.com'', breaches_found_local = 1,
       e_breaches = breaches_collection linkedin_world,
       e_status = Some ''scanned'', e_error = None\<rparr>, linkedin_world)"
  using C6_email_search_regex_or_count[of "sample_env failing_provider" "''user@adobe.com''" linkedin_world]
  by (simp add: after_at_example sample_env_def sample_regex_i_def linkedin_world_def
        empty_world_def sample_data_def)

subsection \<open>add\_domain\_monitor\<close>

lemma find_in: "find P xs = Some x \<Longrightarrow> x \<in> set xs \<and> P x"
  by (induction xs) (auto split: if_splits)

lemma find_snoc:
  "find P (xs @ [d]) = (case find P xs of None \<Rightarrow> (if P d then Some d else None) | Some x \<Rightarrow> Some x)"
  by (induction xs) auto

lemma add_domain_monitor_present:
  assumes "find (\<lambda>d. d_domain d = dm_domain dd) (domains_collection w) = Some existing"
  shows "add_domain_monitor e dd w =
           (\<lparr>m_message = ''Domain already being monitored'', m_id = d_oid existing\<rparr>,
            w\<lparr>uuids_drawn := uuids_drawn w + 1, clock_reads := clock_reads w + 1\<rparr>)"
  using assms by (simp add: add_domain_monitor_def Let_def)

lemma add_domain_monitor_absent:
  assumes "find (\<lambda>d. d_domain d = dm_domain dd) (domains_collection w) = None"
  shows "add_domain_monitor e dd w =
           (\<lparr>m_message = ''Domain monitoring activated'', m_id = oids_issued w\<rparr>,
            snd (get_domain_breaches e (dm_domain dd)
                   (w\<lparr>uuids_drawn := uuids_drawn w + 1, clock_reads := clock_reads w + 1,
                      domains_collection := domains_collection w @
                        [\<lparr>d_oid = oids_issued w, d_id = uuid4 e (uuids_drawn w),
                          d_domain = dm_domain dd, email_patterns = dm_email_patterns dd,
                          d_created_at = now e (clock_reads w), d_status = ''active''\<rparr>],
                      oids_issued := oids_issued w + 1\<rparr>)))"
  using assms by (simp add: add_domain_monitor_def Let_def)

lemma add_domain_monitor_again:
  assumes "dm_domain dd2 = dm_domain dd"
  shows "fst (add_domain_monitor e dd2 (snd (add_domain_monitor e dd w))) =
           \<lparr>m_message = ''Domain already being monitored'',
            m_id = m_id (fst (add_domain_monitor e dd w))\<rparr> \<and>
         domains_collection (snd (add_domain_monitor e dd2 (snd (add_domain_monitor e dd w)))) =
           domains_collection (snd (add_domain_monitor e dd w))"
proof (cases "find (\<lambda>d. d_domain d = dm_domain dd) (domains_collection w)")
  case (Some existing)
  let ?w1 = "w\<lparr>uuids_drawn := uuids_drawn w + 1, clock_reads := clock_reads w + 1\<rparr>"
  have 1: "add_domain_monitor e dd w =
           (\<lparr>m_message = ''Domain already being monitored'', m_id = d_oid existing\<rparr>, ?w1)"
    using add_domain_monitor_present[OF Some] .
  have "find (\<lambda>d. d_domain d = dm_domain dd2) (domains_collection ?w1) = Some existing"
    using Some assms by simp
  then show ?thesis using add_domain_monitor_present[of dd2 ?w1 existing e] 1 by simp
next
  case None
  let ?doc = "\<lparr>d_oid = oids_issued w, d_id = uuid4 e (uuids_drawn w),
                          d_domain = dm_domain dd, email_patterns = dm_email_patterns dd,
                          d_created_at = now e (clock_reads w), d_status = ''active''\<rparr>"
  let ?w2 = "w\<lparr>uuids_drawn := uuids_drawn w + 1, clock_reads := clock_reads w + 1,
                      domains_collection := domains_collection w @ [?doc],
                      oids_issued := oids_issued w + 1\<rparr>"
  let ?w3 = "snd (get_domain_breaches e (dm_domain dd) ?w2)"
  have 1: "add_domain_monitor e dd w =
           (\<lparr>m_message = ''Domain monitoring activated'', m_id = oids_issued w\<rparr>, ?w3)"
    using add_domain_monitor_absent[OF None] .
  have d3: "domains_collection ?w3 = domains_collection w @ [?doc]"
    using get_domain_breaches_frame(2)[of e "dm_domain dd" ?w2] by simp
  have "find (\<lambda>d. d_domain d = dm_domain dd2) (domains_collection ?w3) = Some ?doc"
    using None assms unfolding d3 by (simp add: find_snoc)
  then show ?thesis using add_domain_monitor_present[of dd2 ?w3 ?doc e] 1 by simp
qed

text \<open>
  Claim C8. Registration is idempotent on the domain. When the watchlist already holds a
  document with exactly this domain, \<^verbatim>\<open>add_domain_monitor\<close> answers "Domain already
  being monitored" (the code's form of created = false) with the id of an existing
  document of that domain, and changes neither the watchlist nor the repository nor the
  ledger, and calls no provider. When it holds none, one document with this domain, the
  given patterns and status active is appended and its id returned, and exactly one scan
  of the domain runs on the state with the new document, its outcome discarded. A second
  registration of the same domain right after any registration answers "already being
  monitored" with the id the first call returned and leaves the watchlist as the first
  call left it.
\<close>

theorem C8_registration_is_idempotent:
  "(dm_domain dd \<in> d_domain ` set (domains_collection w) \<longrightarrow>
      (\<exists>existing\<in>set (domains_collection w).
         d_domain existing = dm_domain dd \<and>
         fst (add_domain_monitor e dd w) =
           \<lparr>m_message = ''Domain already being monitored'', m_id = d_oid existing\<rparr>) \<and>
      domains_collection (snd (add_domain_monitor e dd w)) = domains_collection w \<and>
      breaches_collection (snd (add_domain_monitor e dd w)) = breaches_collection w \<and>
      alerts_collection (snd (add_domain_monitor e dd w)) = alerts_collection w \<and>
      requests_made (snd (add_domain_monitor e dd w)) = requests_made w) \<and>
   (dm_domain dd \<notin> d_domain ` set (domains_collection w) \<longrightarrow>
      (\<exists>doc w2.
         domains_collection (snd (add_domain_monitor e dd w)) = domains_collection w @ [doc] \<and>
         d_domain doc = dm_domain dd \<and> email_patterns doc = dm_email_patterns dd \<and>
         d_status doc = ''active'' \<and>
         fst (add_domain_monitor e dd w) =
           \<lparr>m_message = ''Domain monitoring activated'', m_id = d_oid doc\<rparr> \<and>
         domains_collection w2 = domains_collection w @ [doc] \<and>
         breaches_collection w2 = breaches_collection w \<and>
         requests_made w2 = requests_made w \<and>
         snd (add_domain_monitor e dd w) = snd (get_domain_breaches e (dm_domain dd) w2)) \<and>
      requests_made (snd (add_domain_monitor e dd w)) = requests_made w + 1 \<and>
      alerts_collection (snd (add_domain_monitor e dd w)) = alerts_collection w) \<and>
   (dm_domain dd2 = dm_domain dd \<longrightarrow>
      fst (add_domain_monitor e dd2 (snd (add_domain_monitor e dd w))) =
        \<lparr>m_message = ''Domain already being monitored'',
         m_id = m_id (fst (add_domain_monitor e dd w))\<rparr> \<and>
      domains_collection (snd (add_domain_monitor e dd2 (snd (add_domain_monitor e dd w)))) =
        domains_collection (snd (add_domain_monitor e dd w)))"
proof (intro conjI impI)
  assume p: "dm_domain dd \<in> d_domain ` set (domains_collection w)"
  then have "find (\<lambda>d. d_domain d = dm_domain dd) (domains_collection w) \<noteq> None"
    by (auto simp: find_None_iff)
  then obtain existing where f: "find (\<lambda>d. d_domain d = dm_domain dd) (domains_collection w) = Some existing"
    by auto
  note a = add_domain_monitor_present[OF f, of e]
  show "\<exists>existing\<in>set (domains_collection w).
         d_domain existing = dm_domain dd \<and>
         fst (add_domain_monitor e dd w) =
           \<lparr>m_message = ''Domain already being monitored'', m_id = d_oid existing\<rparr>"
    using find_in[OF f] a by auto
  show "domains_collection (snd (add_domain_monitor e dd w)) = domains_collection w"
    using a by simp
  show "breaches_collection (snd (add_domain_monitor e dd w)) = breaches_collection w"
    using a by simp
  show "alerts_collection (snd (add_domain_monitor e dd w)) = alerts_collection w"
    using a by simp
  show "requests_made (snd (add_domain_monitor e dd w)) = requests_made w"
    using a by simp
next
  assume n: "dm_domain dd \<notin> d_domain ` set (domains_collection w)"
  then have f: "find (\<lambda>d. d_domain d = dm_domain dd) (domains_collection w) = None"
    unfolding find_None_iff by (metis image_eqI)
  let ?doc = "\<lparr>d_oid = oids_issued w, d_id = uuid4 e (uuids_drawn w),
                          d_domain = dm_domain dd, email_patterns = dm_email_patterns dd,
                          d_created_at = now e (clock_reads w), d_status = ''active''\<rparr>"
  let ?w2 = "w\<lparr>uuids_drawn := uuids_drawn w + 1, clock_reads := clock_reads w + 1,
                      domains_collection := domains_collection w @ [?doc],
                      oids_issued := oids_issued w + 1\<rparr>"
  note a = add_domain_monitor_absent[OF f, of e]
  have fr: "domains_collection (snd (get_domain_breaches e (dm_domain dd) ?w2)) = domains_collection w @ [?doc]"
    "requests_made (snd (get_domain_breaches e (dm_domain dd) ?w2)) = requests_made w + 1"
    "alerts_collection (snd (get_domain_breaches e (dm_domain dd) ?w2)) = alerts_collection w"
    using get_domain_breaches_frame[of e "dm_domain dd" ?w2] by simp_all
  show "\<exists>doc w2.
         domains_collection (snd (add_domain_monitor e dd w)) = domains_collection w @ [doc] \<and>
         d_domain doc = dm_domain dd \<and> email_patterns doc = dm_email_patterns dd \<and>
         d_status doc = ''active'' \<and>
         fst (add_domain_monitor e dd w) =
           \<lparr>m_message = ''Domain monitoring activated'', m_id = d_oid doc\<rparr> \<and>
         domains_collection w2 = domains_collection w @ [doc] \<and>
         breaches_collection w2 = breaches_collection w \<and>
         requests_made w2 = requests_made w \<and>
         snd (add_domain_monitor e dd w) = snd (get_domain_breaches e (dm_domain dd) w2)"
    using a fr by (intro exI[of _ ?doc] exI[of _ ?w2]) simp
  show "requests_made (snd (add_domain_monitor e dd w)) = requests_made w + 1"
    using a fr by simp
  show "alerts_collection (snd (add_domain_monitor e dd w)) = alerts_collection w"
    using a fr by simp
next
  assume "dm_domain dd2 = dm_domain dd"
  then show "fst (add_domain_monitor e dd2 (snd (add_domain_monitor e dd w))) =
        \<lparr>m_message = ''Domain already being monitored'',
         m_id = m_id (fst (add_domain_monitor e dd w))\<rparr>"
    using add_domain_monitor_again[of dd2 dd e w] by simp
next
  assume "dm_domain dd2 = dm_domain dd"
  then show "domains_collection (snd (add_domain_monitor e dd2 (snd (add_domain_monitor e dd w)))) =
        domains_collection (snd (add_domain_monitor e dd w))"
    using add_domain_monitor_again[of dd2 dd e w] by simp
qed


text \<open>
  Registering example.com twice, with a provider that times out: the first call creates
  the document with id 0, the second returns that id, and the watchlist holds one document.
\<close>

theorem C8_registration_is_idempotent_witness:
  "fst (add_domain_monitor (sample_env failing_provider) example_registration empty_world) =
     \<lparr>m_message = ''Domain monitoring activated'', m_id = 0\<rparr> \<and>
   map (\<lambda>d. (d_domain d, d_status d))
     (domains_collection
        (snd (add_domain_monitor (sample_env failing_provider) example_registration empty_world))) =
     [(''example.com'', ''active'')] \<and>
   fst (add_domain_monitor (sample_env failing_provider) example_registration
          (snd (add_domain_monitor (sample_env failing_provider) example_registration empty_world))) =
     \<lparr>m_message = ''Domain already being monitored'', m_id = 0\<rparr> \<and>
   map (\<lambda>d. (d_domain d, d_status d))
     (domains_collection
        (snd (add_domain_monitor (sample_env failing_provider) example_registration
          (snd (add_domain_monitor (sample_env failing_provider) example_registration empty_world))))) =
     [(''example.com'', ''active'')]"
proof -
  let ?e = "sample_env failing_provider"
  have f: "find (\<lambda>d. d_domain d = dm_domain example_registration) (domains_collection empty_world) = None"
    by (simp add: empty_world_def)
  have 1: "fst (add_domain_monitor ?e example_registration empty_world) =
     \<lparr>m_message = ''Domain monitoring activated'', m_id = 0\<rparr>"
    using add_domain_monitor_absent[OF f, of ?e] by (simp add: empty_world_def)
  have 2: "map (\<lambda>d. (d_domain d, d_status d))
     (domains_collection (snd (add_domain_monitor ?e example_registration empty_world))) =
     [(''example.com'', ''active'')]"
    using add_domain_monitor_absent[OF f, of ?e]
    by (simp add: get_domain_breaches_frame empty_world_def example_registration_def)
  show ?thesis
    using C8_registration_is_idempotent
            [of example_registration empty_world ?e example_registration] 1 2
    by simp
qed

end
